theory Spec2Isabelle
  imports Complex_Main
begin

section \<open>Python values, errors and objects\<close>

text \<open>
  The demo raises \<^verbatim>\<open>ValueError\<close> itself; \<^verbatim>\<open>TypeError\<close> is what Python's comparison
  operators raise on operands they do not support. An exception is a value: every
  function that can raise returns \<open>pyerror + 'a\<close>, with \<open>Inl\<close> for the exception.
\<close>

datatype pyerror = ValueError string | TypeError string

text \<open>
  A Python \<^verbatim>\<open>str\<close> is modelled as a \<open>string\<close> holding its UTF-8 bytes. Emptiness,
  concatenation, membership of an ASCII character and matching against ASCII
  character classes are the same on the bytes as on the code points.

  A Python \<^verbatim>\<open>float\<close> is an IEEE double: not-a-number, an infinity with its sign, or a
  finite value. \<open>Finite s m e\<close> stands for \<open>(-1)\<^sup>s * m * 2\<^sup>e\<close>, with the sign kept
  apart so that \<^verbatim>\<open>-0.0\<close> is a value of its own. Every finite double is of this
  form (with \<open>m < 2\<^sup>5\<^sup>3\<close>); the model puts no bound on \<open>m\<close> and \<open>e\<close>.
\<close>

datatype pyfloat = Finite bool nat int | Infinity bool | NaN

text \<open>The comparisons \<^verbatim>\<open>x <= 0\<close> and \<^verbatim>\<open>x > 0\<close> on a float: both are false on NaN.\<close>

fun float_le_zero :: "pyfloat \<Rightarrow> bool" where
  "float_le_zero (Finite s m e) = (s \<or> m = 0)"
| "float_le_zero (Infinity s) = s"
| "float_le_zero NaN = False"

fun float_gt_zero :: "pyfloat \<Rightarrow> bool" where
  "float_gt_zero (Finite s m e) = (\<not> s \<and> 0 < m)"
| "float_gt_zero (Infinity s) = (\<not> s)"
| "float_gt_zero NaN = False"

text \<open>
  Objects live in a heap and are handled through references. Calling a class allocates
  a fresh object; assigning to an attribute updates the object in place, which every
  holder of the reference sees. A heap is the list of the objects allocated so far, a
  reference is an index into it. References only come from \<open>alloc\<close>, so a
  reference a function holds is always below the length of the heap it reads.
\<close>

type_synonym ref = nat
type_synonym 'a heap = "'a list"

definition alloc :: "'a \<Rightarrow> 'a heap \<Rightarrow> ref \<times> 'a heap" where
  "alloc obj h = (length h, h @ [obj])"

section \<open>models.py\<close>

record User =
  id :: int
  name :: string
  email :: string

record Order =
  id :: int
  user_id :: int
  product :: string
  amount :: pyfloat
  status :: string

text \<open>
  The dataclass constructor of \<^verbatim>\<open>Order\<close> as the services call it, with four keyword
  arguments: \<^verbatim>\<open>status\<close> takes its default.
\<close>

definition Order_init :: "int \<Rightarrow> int \<Rightarrow> string \<Rightarrow> pyfloat \<Rightarrow> Order" where
  "Order_init i u p a =
     \<lparr>Order.id = i, user_id = u, product = p, amount = a, status = ''pending''\<rparr>"

definition MAX_ORDERS_PER_USER :: int where
  "MAX_ORDERS_PER_USER = 100"

definition DEFAULT_CURRENCY :: string where
  "DEFAULT_CURRENCY = ''USD''"

section \<open>user\_service.py\<close>

definition get_all_users :: "User heap \<Rightarrow> ref list \<times> User heap" where
  "get_all_users h =
     (let (u1, h1) = alloc \<lparr>User.id = 1, name = ''Alice'', email = ''alice@example.com''\<rparr> h;
          (u2, h2) = alloc \<lparr>User.id = 2, name = ''Bob'', email = ''bob@example.com''\<rparr> h1
      in ([u1, u2], h2))"

text \<open>The \<^verbatim>\<open>for user in users\<close> loop of \<^verbatim>\<open>get_user_by_id\<close>, with its early return.\<close>

fun users_loop :: "int \<Rightarrow> ref list \<Rightarrow> User heap \<Rightarrow> ref option" where
  "users_loop user_id' [] h = None"
| "users_loop user_id' (user # users) h =
     (if User.id (h ! user) = user_id' then Some user else users_loop user_id' users h)"

definition get_user_by_id :: "int \<Rightarrow> User heap \<Rightarrow> ref option \<times> User heap" where
  "get_user_by_id user_id' h =
     (let (users, h1) = get_all_users h in (users_loop user_id' users h1, h1))"

definition create_user :: "string \<Rightarrow> string \<Rightarrow> User heap \<Rightarrow> (pyerror + ref) \<times> User heap" where
  "create_user name' email' h =
     (if email' = [] \<or> CHR ''@'' \<notin> set email'
      then (Inl (ValueError ''Invalid email address''), h)
      else
        (let (users, h1) = get_all_users h;
             user_id' = int (length users) + 1;
             (user, h2) = alloc \<lparr>User.id = user_id', name = name', email = email'\<rparr> h1
         in (Inr user, h2)))"

text \<open>
  The optional arguments of \<^verbatim>\<open>update_user\<close> are \<^verbatim>\<open>None\<close> or a string, and
  \<^verbatim>\<open>if name:\<close> is Python's truth test: \<^verbatim>\<open>None\<close> and the empty string are false,
  every other string is true.
\<close>

definition update_user ::
  "int \<Rightarrow> string option \<Rightarrow> string option \<Rightarrow> User heap \<Rightarrow> ref option \<times> User heap" where
  "update_user user_id' name' email' h =
     (case get_user_by_id user_id' h of
        (None, h1) \<Rightarrow> (None, h1)
      | (Some user, h1) \<Rightarrow>
          (let h2 = (case name' of
                       Some n \<Rightarrow> if n \<noteq> [] then h1[user := (h1 ! user)\<lparr>name := n\<rparr>] else h1
                     | None \<Rightarrow> h1);
               h3 = (case email' of
                       Some e \<Rightarrow> if e \<noteq> [] then h2[user := (h2 ! user)\<lparr>email := e\<rparr>] else h2
                     | None \<Rightarrow> h2)
           in (Some user, h3)))"

definition delete_user :: "int \<Rightarrow> User heap \<Rightarrow> bool \<times> User heap" where
  "delete_user user_id' h =
     (case get_user_by_id user_id' h of (user, h1) \<Rightarrow> (user \<noteq> None, h1))"

section \<open>order\_service.py\<close>

text \<open>
  The two seeded amounts are the doubles that the literals \<^verbatim>\<open>999.99\<close> and
  \<^verbatim>\<open>699.99\<close> denote: \<open>4398002530638889 / 2\<^sup>4\<^sup>2\<close> and \<open>3078588577307689 / 2\<^sup>4\<^sup>2\<close>.
\<close>

definition get_all_orders :: "Order heap \<Rightarrow> ref list \<times> Order heap" where
  "get_all_orders h =
     (let (o1, h1) = alloc (Order_init 1 1 ''Laptop'' (Finite False 4398002530638889 (- 42))) h;
          (o2, h2) = alloc (Order_init 2 2 ''Phone'' (Finite False 3078588577307689 (- 42))) h1
      in ([o1, o2], h2))"

fun orders_loop :: "int \<Rightarrow> ref list \<Rightarrow> Order heap \<Rightarrow> ref option" where
  "orders_loop order_id [] h = None"
| "orders_loop order_id (order # orders) h =
     (if Order.id (h ! order) = order_id then Some order else orders_loop order_id orders h)"

definition get_order_by_id :: "int \<Rightarrow> Order heap \<Rightarrow> ref option \<times> Order heap" where
  "get_order_by_id order_id h =
     (let (orders, h1) = get_all_orders h in (orders_loop order_id orders h1, h1))"

definition create_order ::
  "int \<Rightarrow> string \<Rightarrow> pyfloat \<Rightarrow> Order heap \<Rightarrow> (pyerror + ref) \<times> Order heap" where
  "create_order user_id' product' amount' h =
     (if float_le_zero amount'
      then (Inl (ValueError ''Amount must be positive''), h)
      else
        (let (orders, h1) = get_all_orders h;
             order_id = int (length orders) + 1;
             (order, h2) = alloc (Order_init order_id user_id' product' amount') h1
         in (Inr order, h2)))"

definition cancel_order :: "int \<Rightarrow> Order heap \<Rightarrow> bool \<times> Order heap" where
  "cancel_order order_id h =
     (case get_order_by_id order_id h of
        (None, h1) \<Rightarrow> (False, h1)
      | (Some order, h1) \<Rightarrow> (True, h1[order := (h1 ! order)\<lparr>status := ''cancelled''\<rparr>]))"

section \<open>utils.py\<close>

subsection \<open>Regular expressions, as far as \<^verbatim>\<open>validateEmail\<close> uses them\<close>

text \<open>
  The pattern of \<^verbatim>\<open>validateEmail\<close> is a sequence of items: the anchors \<^verbatim>\<open>^\<close> and
  \<^verbatim>\<open>$\<close>, a single character (a literal or a class), and a greedy repetition
  \<^verbatim>\<open>+\<close> or \<^verbatim>\<open>{n,}\<close> of a single character. A class is a list of inclusive ranges.

  The matcher is the backtracking matcher of Python's \<^verbatim>\<open>re\<close>: a state is the position
  reached and the rest of the subject, and an item maps a state to the states it can
  stop in, in the order the engine tries them (a greedy repetition tries the longest
  run first). With no flags given, \<^verbatim>\<open>^\<close> matches at position 0 only, and \<^verbatim>\<open>$\<close>
  matches at the end of the subject and also just before a newline that ends it.
\<close>

datatype atom = Lit char | Cls "(char \<times> char) list"

datatype item = Bol | Eol | One atom | AtLeast nat atom

type_synonym mstate = "nat \<times> string"

fun in_class :: "(char \<times> char) list \<Rightarrow> char \<Rightarrow> bool" where
  "in_class [] c = False"
| "in_class ((lo, hi) # rs) c =
     (((of_char lo :: nat) \<le> of_char c \<and> (of_char c :: nat) \<le> of_char hi) \<or> in_class rs c)"

fun atom_ok :: "atom \<Rightarrow> char \<Rightarrow> bool" where
  "atom_ok (Lit a) c = (c = a)"
| "atom_ok (Cls rs) c = in_class rs c"

fun match_item :: "item \<Rightarrow> mstate \<Rightarrow> mstate list" where
  "match_item Bol (pos, rest) = (if pos = 0 then [(pos, rest)] else [])"
| "match_item Eol (pos, rest) =
     (if rest = [] \<or> rest = [CHR 0x0A] then [(pos, rest)] else [])"
| "match_item (One a) (pos, rest) =
     (case rest of
        [] \<Rightarrow> []
      | c # cs \<Rightarrow> if atom_ok a c then [(pos + 1, cs)] else [])"
| "match_item (AtLeast n a) (pos, rest) =
     (let k = length (takeWhile (atom_ok a) rest)
      in map (\<lambda>j. (pos + j, drop j rest)) (rev [n ..< Suc k]))"

fun match_seq :: "item list \<Rightarrow> mstate \<Rightarrow> mstate list" where
  "match_seq [] st = [st]"
| "match_seq (i # items) st = concat (map (match_seq items) (match_item i st))"

text \<open>
  \<^verbatim>\<open>re.match(pattern, string)\<close> tries the pattern at position 0 only and returns the
  first match found, or \<^verbatim>\<open>None\<close>.
\<close>

definition re_match :: "item list \<Rightarrow> string \<Rightarrow> mstate option" where
  "re_match p subject = (case match_seq p (0, subject) of [] \<Rightarrow> None | m # _ \<Rightarrow> Some m)"

subsection \<open>The functions\<close>

text \<open>The pattern \<^verbatim>\<open>^[a-zA-Z0-9._%+-]+@[a-zA-Z0-9.-]+\.[a-zA-Z]{2,}$\<close>.\<close>

definition pattern :: "item list" where
  "pattern =
     [Bol,
      AtLeast 1 (Cls [(CHR ''a'', CHR ''z''), (CHR ''A'', CHR ''Z''), (CHR ''0'', CHR ''9''),
                      (CHR ''.'', CHR ''.''), (CHR ''_'', CHR ''_''), (CHR ''%'', CHR ''%''),
                      (CHR ''+'', CHR ''+''), (CHR ''-'', CHR ''-'')]),
      One (Lit (CHR ''@'')),
      AtLeast 1 (Cls [(CHR ''a'', CHR ''z''), (CHR ''A'', CHR ''Z''), (CHR ''0'', CHR ''9''),
                      (CHR ''.'', CHR ''.''), (CHR ''-'', CHR ''-'')]),
      One (Lit (CHR ''.'')),
      AtLeast 2 (Cls [(CHR ''a'', CHR ''z''), (CHR ''A'', CHR ''Z'')]),
      Eol]"

text \<open>\<^verbatim>\<open>bool(m)\<close> of a match object is true, \<^verbatim>\<open>bool(None)\<close> is false.\<close>

definition validateEmail :: "string \<Rightarrow> bool" where
  "validateEmail email' = (re_match pattern email' \<noteq> None)"

text \<open>
  \<^verbatim>\<open>f"{amount:.2f}"\<close> on a float: \<^verbatim>\<open>nan\<close>, \<^verbatim>\<open>inf\<close> and \<^verbatim>\<open>-inf\<close> for the values that
  are not finite; for a finite value the sign (also of a negative zero), then the exact
  value rounded to the nearest hundredth, a tie going to the even neighbour, written
  in fixed-point notation with two digits after the point.
\<close>

definition digit_char :: "nat \<Rightarrow> char" where
  "digit_char d = char_of (48 + d)"

fun str_nat :: "nat \<Rightarrow> string" where
  "str_nat n = (if n < 10 then [digit_char n] else str_nat (n div 10) @ [digit_char (n mod 10)])"

declare str_nat.simps [simp del]

text \<open>The absolute value of a finite float as a fraction \<open>(numerator, denominator)\<close>.\<close>

definition float_ratio :: "nat \<Rightarrow> int \<Rightarrow> nat \<times> nat" where
  "float_ratio m e = (if 0 \<le> e then (m * 2 ^ nat e, 1) else (m, 2 ^ nat (- e)))"

definition round_half_even :: "nat \<Rightarrow> nat \<Rightarrow> nat" where
  "round_half_even num den =
     (let q = num div den; r = num mod den
      in if 2 * r < den then q
         else if den < 2 * r then q + 1
         else if even q then q else q + 1)"

fun format_2f :: "pyfloat \<Rightarrow> string" where
  "format_2f NaN = ''nan''"
| "format_2f (Infinity s) = (if s then ''-inf'' else ''inf'')"
| "format_2f (Finite s m e) =
     (let (num, den) = float_ratio m e;
          n = round_half_even (100 * num) den
      in (if s then ''-'' else []) @ str_nat (n div 100) @ ''.'' @
         [digit_char (n div 10 mod 10), digit_char (n mod 10)])"

text \<open>
  The dictionary \<^verbatim>\<open>symbols\<close>; the euro and pound signs are the UTF-8 bytes of U+20AC
  and U+00A3. \<^verbatim>\<open>d.get(k, default)\<close> is the value under \<open>k\<close>, or the default.
\<close>

definition symbols :: "(string \<times> string) list" where
  "symbols =
     [(''USD'', ''$''),
      (''EUR'', [CHR 0xE2, CHR 0x82, CHR 0xAC]),
      (''GBP'', [CHR 0xC2, CHR 0xA3])]"

definition dict_get :: "('k \<times> 'v) list \<Rightarrow> 'k \<Rightarrow> 'v \<Rightarrow> 'v" where
  "dict_get d k default' = (case map_of d k of Some v \<Rightarrow> v | None \<Rightarrow> default')"

definition FormatCurrency :: "pyfloat \<Rightarrow> string \<Rightarrow> string" where
  "FormatCurrency amount' currency =
     (let symbol = dict_get symbols currency ''$'' in symbol @ format_2f amount')"

definition MyConstant :: int where
  "MyConstant = 42"

text \<open>
  \<^verbatim>\<open>is_valid_id\<close> takes a value of any type. The values here are the built-in ones:
  \<^verbatim>\<open>None\<close>, booleans, integers, floats, strings and lists. \<^verbatim>\<open>bool\<close> is a subclass of
  \<^verbatim>\<open>int\<close>, so \<^verbatim>\<open>isinstance(v, int)\<close> holds of a boolean too, and in a comparison
  \<^verbatim>\<open>True\<close> is 1 and \<^verbatim>\<open>False\<close> is 0. \<^verbatim>\<open>v > 0\<close> raises \<^verbatim>\<open>TypeError\<close> on
  \<^verbatim>\<open>None\<close>, a string and a list.
\<close>

datatype pyval =
  PyNone | PyBool bool | PyInt int | PyFloat pyfloat | PyStr string | PyList "pyval list"

fun isinstance_int :: "pyval \<Rightarrow> bool" where
  "isinstance_int (PyBool b) = True"
| "isinstance_int (PyInt n) = True"
| "isinstance_int v = False"

fun gt_zero :: "pyval \<Rightarrow> pyerror + bool" where
  "gt_zero (PyBool b) = Inr b"
| "gt_zero (PyInt n) = Inr (0 < n)"
| "gt_zero (PyFloat x) = Inr (float_gt_zero x)"
| "gt_zero v = Inl (TypeError ''> not supported'')"

text \<open>
  \<^verbatim>\<open>a and b\<close> evaluates \<open>b\<close> only when \<open>a\<close> is true; when \<open>a\<close> is \<^verbatim>\<open>False\<close> the
  result is \<open>a\<close> itself.
\<close>

definition is_valid_id :: "pyval \<Rightarrow> pyerror + bool" where
  "is_valid_id id_value = (if isinstance_int id_value then gt_zero id_value else Inr False)"

section \<open>Notions of the specification\<close>

text \<open>
  The integer that a value is, when it is one: an \<^verbatim>\<open>int\<close>, or a boolean, which
  Python counts as the integer 1 or 0. No other value is an integer; a float is none
  even when its value is integral.
\<close>

fun as_integer :: "pyval \<Rightarrow> int option" where
  "as_integer (PyInt n) = Some n"
| "as_integer (PyBool b) = Some (if b then 1 else 0)"
| "as_integer v = None"

text \<open>
  The shape \<^verbatim>\<open>local@domain.tld\<close> of an email address: a local part of one or more
  characters from \<^verbatim>\<open>[a-zA-Z0-9._%+-]\<close>, an \<^verbatim>\<open>@\<close>, a domain of one or more characters
  from \<^verbatim>\<open>[a-zA-Z0-9.-]\<close>, a dot, and a suffix of at least two letters.
\<close>

definition local_char :: "char \<Rightarrow> bool" where
  "local_char =
     in_class [(CHR ''a'', CHR ''z''), (CHR ''A'', CHR ''Z''), (CHR ''0'', CHR ''9''),
               (CHR ''.'', CHR ''.''), (CHR ''_'', CHR ''_''), (CHR ''%'', CHR ''%''),
               (CHR ''+'', CHR ''+''), (CHR ''-'', CHR ''-'')]"

definition domain_char :: "char \<Rightarrow> bool" where
  "domain_char =
     in_class [(CHR ''a'', CHR ''z''), (CHR ''A'', CHR ''Z''), (CHR ''0'', CHR ''9''),
               (CHR ''.'', CHR ''.''), (CHR ''-'', CHR ''-'')]"

definition letter :: "char \<Rightarrow> bool" where
  "letter = in_class [(CHR ''a'', CHR ''z''), (CHR ''A'', CHR ''Z'')]"

definition email_shape :: "string \<Rightarrow> bool" where
  "email_shape s =
     (\<exists>local domain tld.
        s = local @ ''@'' @ domain @ ''.'' @ tld
        \<and> local \<noteq> [] \<and> list_all local_char local
        \<and> domain \<noteq> [] \<and> list_all domain_char domain
        \<and> 2 \<le> length tld \<and> list_all letter tld)"

text \<open>
  An amount rendered with exactly two decimal places: an optional minus sign, one or
  more digits, a point, and two digits. \<open>read_nat\<close> is the number a string of digits
  denotes, so \<open>read_nat (filter is_digit t)\<close> is the number of hundredths that such a
  text shows.
\<close>

definition is_digit :: "char \<Rightarrow> bool" where
  "is_digit c = (c \<in> set ''0123456789'')"

definition digit_value :: "char \<Rightarrow> nat" where
  "digit_value c = of_char c - 48"

definition read_nat :: "string \<Rightarrow> nat" where
  "read_nat ds = foldl (\<lambda>n c. 10 * n + digit_value c) 0 ds"

definition two_decimal_places :: "string \<Rightarrow> bool" where
  "two_decimal_places t =
     (\<exists>sign ip fp. t = sign @ ip @ ''.'' @ fp
        \<and> (sign = [] \<or> sign = ''-'')
        \<and> ip \<noteq> [] \<and> list_all is_digit ip
        \<and> length fp = 2 \<and> list_all is_digit fp)"

text \<open>The symbol of a currency code: \<^verbatim>\<open>$\<close>, the euro sign, the pound sign, else \<^verbatim>\<open>$\<close>.\<close>

definition currency_symbol :: "string \<Rightarrow> string" where
  "currency_symbol code =
     (if code = ''USD'' then ''$''
      else if code = ''EUR'' then [CHR 0xE2, CHR 0x82, CHR 0xAC]
      else if code = ''GBP'' then [CHR 0xC2, CHR 0xA3]
      else ''$'')"

section \<open>Properties of the user service\<close>

text \<open>
  However many objects the heap already holds, \<^verbatim>\<open>get_all_users\<close> allocates the same
  two users behind the same two fresh references.
\<close>

lemma get_all_users_eq:
  "get_all_users h =
     ([length h, Suc (length h)],
      h @ [\<lparr>User.id = 1, name = ''Alice'', email = ''alice@example.com''\<rparr>,
           \<lparr>User.id = 2, name = ''Bob'', email = ''bob@example.com''\<rparr>])"
  by (simp add: get_all_users_def alloc_def)

lemma users_loop_find:
  "users_loop uid users h = find (\<lambda>u. User.id (h ! u) = uid) users"
  by (induction users) auto

lemma get_user_by_id_cases:
  "get_user_by_id uid h =
     ((if uid = 1 then Some (length h) else if uid = 2 then Some (Suc (length h)) else None),
      h @ [\<lparr>User.id = 1, name = ''Alice'', email = ''alice@example.com''\<rparr>,
           \<lparr>User.id = 2, name = ''Bob'', email = ''bob@example.com''\<rparr>])"
  by (simp add: get_user_by_id_def get_all_users_eq nth_append)

lemma create_user_ok:
  "email' \<noteq> [] \<Longrightarrow> CHR ''@'' \<in> set email' \<Longrightarrow>
   create_user name' email' h =
     (Inr (length h + 2),
      h @ [\<lparr>User.id = 1, name = ''Alice'', email = ''alice@example.com''\<rparr>,
           \<lparr>User.id = 2, name = ''Bob'', email = ''bob@example.com''\<rparr>,
           \<lparr>User.id = 3, name = name', email = email'\<rparr>])"
  by (simp add: create_user_def get_all_users_eq alloc_def)

lemma create_user_err:
  "email' = [] \<or> CHR ''@'' \<notin> set email' \<Longrightarrow>
   create_user name' email' h = (Inl (ValueError ''Invalid email address''), h)"
  by (simp add: create_user_def)

text \<open>
  Claim C5. For every integer id and from every heap, \<^verbatim>\<open>get_user_by_id\<close> returns what
  a linear scan of the list \<^verbatim>\<open>get_all_users()\<close> built finds: the first user whose
  \<^verbatim>\<open>id\<close> field equals the id, or \<^verbatim>\<open>None\<close> when no user matches. The function has no
  raising branch: its result is always a reference or \<^verbatim>\<open>None\<close>. For id 1 the user
  found is named Alice with email alice@example.com; for id 999 the result is
  \<^verbatim>\<open>None\<close>.
\<close>

theorem get_user_by_id_scan:
  "(case get_all_users h of
      (users, h1) \<Rightarrow> get_user_by_id uid h = (find (\<lambda>u. User.id (h1 ! u) = uid) users, h1))
   \<and> (\<exists>user h1. get_user_by_id 1 h = (Some user, h1)
          \<and> name (h1 ! user) = ''Alice'' \<and> email (h1 ! user) = ''alice@example.com'')
   \<and> (\<exists>h1. get_user_by_id 999 h = (None, h1))"
proof (intro conjI)
  show "case get_all_users h of
      (users, h1) \<Rightarrow> get_user_by_id uid h = (find (\<lambda>u. User.id (h1 ! u) = uid) users, h1)"
    by (simp add: get_user_by_id_def users_loop_find split: prod.splits)
  show "\<exists>user h1. get_user_by_id 1 h = (Some user, h1)
          \<and> name (h1 ! user) = ''Alice'' \<and> email (h1 ! user) = ''alice@example.com''"
    by (simp add: get_user_by_id_cases nth_append)
  show "\<exists>h1. get_user_by_id 999 h = (None, h1)"
    by (simp add: get_user_by_id_cases)
qed

theorem get_user_by_id_scan_witness:
  "get_user_by_id 2 [] =
     (Some 1, [\<lparr>User.id = 1, name = ''Alice'', email = ''alice@example.com''\<rparr>,
               \<lparr>User.id = 2, name = ''Bob'', email = ''bob@example.com''\<rparr>])"
  using get_user_by_id_scan [where h = "[]" and uid = 2] by (simp add: get_all_users_eq)

text \<open>
  Claim C2. For every name and every email that is non-empty and contains \<^verbatim>\<open>@\<close>,
  \<^verbatim>\<open>create_user\<close> returns a user whose id is the length of \<^verbatim>\<open>get_all_users()\<close> plus
  one, which is 3 from every heap, that is after any earlier calls; the user carries
  the given name and email. In particular \<^verbatim>\<open>create_user("Carl", "carl@x.com")\<close> returns
  a user with id 3 and name Carl.
\<close>

theorem create_user_id_is_3:
  "(email' \<noteq> [] \<and> CHR ''@'' \<in> set email' \<longrightarrow>
      (\<exists>user h1. create_user name' email' h = (Inr user, h1)
         \<and> User.id (h1 ! user) = int (length (fst (get_all_users h))) + 1
         \<and> User.id (h1 ! user) = 3
         \<and> name (h1 ! user) = name' \<and> email (h1 ! user) = email'))
   \<and> (\<exists>user h1. create_user ''Carl'' ''carl@x.com'' h = (Inr user, h1)
         \<and> User.id (h1 ! user) = 3 \<and> name (h1 ! user) = ''Carl'')"
  by (simp add: create_user_ok get_all_users_eq nth_append)

text \<open>
  The heap of the witness already holds the user an earlier \<^verbatim>\<open>create_user\<close> made,
  with id 3: the next user gets id 3 again.
\<close>

theorem create_user_id_is_3_witness:
  "\<exists>user h1.
      create_user ''Dana'' ''dana@y.org''
        [\<lparr>User.id = 3, name = ''Carl'', email = ''carl@x.com''\<rparr>] = (Inr user, h1)
      \<and> User.id (h1 ! user) = 3 \<and> name (h1 ! user) = ''Dana''
      \<and> email (h1 ! user) = ''dana@y.org''"
  using create_user_id_is_3 [where email' = "''dana@y.org''" and name' = "''Dana''"
      and h = "[\<lparr>User.id = 3, name = ''Carl'', email = ''carl@x.com''\<rparr>]"]
  by auto

text \<open>
  Claim C3. For every name and email, \<^verbatim>\<open>create_user\<close> raises \<^verbatim>\<open>ValueError\<close> exactly
  when the email is empty or has no \<^verbatim>\<open>@\<close>, and returns a user exactly on all other
  inputs. It raises nothing else, and raises before it allocates anything.
  \<^verbatim>\<open>create_user("X", "bad-email")\<close> raises.
\<close>

theorem create_user_raises_iff:
  "((\<exists>msg h1. create_user name' email' h = (Inl (ValueError msg), h1))
      \<longleftrightarrow> (email' = [] \<or> CHR ''@'' \<notin> set email'))
   \<and> ((\<exists>user h1. create_user name' email' h = (Inr user, h1))
      \<longleftrightarrow> \<not> (email' = [] \<or> CHR ''@'' \<notin> set email'))
   \<and> (\<forall>e h1. create_user name' email' h = (Inl e, h1)
        \<longrightarrow> h1 = h \<and> e = ValueError ''Invalid email address'')
   \<and> create_user ''X'' ''bad-email'' h = (Inl (ValueError ''Invalid email address''), h)"
proof (cases "email' = [] \<or> CHR ''@'' \<notin> set email'")
  case True
  then show ?thesis
    by (simp add: create_user_err)
next
  case False
  then show ?thesis
    by (simp add: create_user_ok create_user_err)
qed

theorem create_user_raises_iff_witness:
  "(\<exists>msg h1. create_user ''X'' ''no-at'' [] = (Inl (ValueError msg), h1))
   \<and> (\<exists>user h1. create_user ''X'' ''x@y'' [] = (Inr user, h1))"
  using create_user_raises_iff [where name' = "''X''" and email' = "''no-at''" and h = "[]"]
        create_user_raises_iff [where name' = "''X''" and email' = "''x@y''" and h = "[]"]
  by simp

text \<open>
  Claim C6. For every id, name and email argument: when \<^verbatim>\<open>get_user_by_id\<close> finds no
  user, \<^verbatim>\<open>update_user\<close> returns \<^verbatim>\<open>None\<close>. Otherwise it returns the user looked up, and
  in that object the name is the name argument exactly when one is supplied and is not
  empty, the email is the email argument exactly when one is supplied and is not empty,
  and a field whose argument is absent or empty keeps its seeded value. The id is never
  changed, and no other object is touched.
\<close>

theorem update_user_fields:
  "(case get_user_by_id uid h of
      (None, h1) \<Rightarrow> update_user uid name' email' h = (None, h1)
    | (Some user, h1) \<Rightarrow>
        (\<exists>h2. update_user uid name' email' h = (Some user, h2)
           \<and> name (h2 ! user) =
               (case name' of None \<Rightarrow> name (h1 ! user)
                | Some n \<Rightarrow> if n = [] then name (h1 ! user) else n)
           \<and> email (h2 ! user) =
               (case email' of None \<Rightarrow> email (h1 ! user)
                | Some e \<Rightarrow> if e = [] then email (h1 ! user) else e)
           \<and> User.id (h2 ! user) = User.id (h1 ! user)
           \<and> length h2 = length h1
           \<and> (\<forall>r. r \<noteq> user \<longrightarrow> h2 ! r = h1 ! r)))
   \<and> (\<exists>user h2. update_user 1 (Some ''Al'') (Some []) h = (Some user, h2)
         \<and> h2 ! user = \<lparr>User.id = 1, name = ''Al'', email = ''alice@example.com''\<rparr>)"
proof (intro conjI)
  show "case get_user_by_id uid h of
      (None, h1) \<Rightarrow> update_user uid name' email' h = (None, h1)
    | (Some user, h1) \<Rightarrow>
        (\<exists>h2. update_user uid name' email' h = (Some user, h2)
           \<and> name (h2 ! user) =
               (case name' of None \<Rightarrow> name (h1 ! user)
                | Some n \<Rightarrow> if n = [] then name (h1 ! user) else n)
           \<and> email (h2 ! user) =
               (case email' of None \<Rightarrow> email (h1 ! user)
                | Some e \<Rightarrow> if e = [] then email (h1 ! user) else e)
           \<and> User.id (h2 ! user) = User.id (h1 ! user)
           \<and> length h2 = length h1
           \<and> (\<forall>r. r \<noteq> user \<longrightarrow> h2 ! r = h1 ! r))"
    by (simp add: update_user_def get_user_by_id_cases nth_append split: option.splits)
  show "\<exists>user h2. update_user 1 (Some ''Al'') (Some []) h = (Some user, h2)
         \<and> h2 ! user = \<lparr>User.id = 1, name = ''Al'', email = ''alice@example.com''\<rparr>"
    by (simp add: update_user_def get_user_by_id_cases nth_append)
qed

theorem update_user_fields_witness:
  "(\<exists>h2. update_user 2 None (Some ''rob@example.com'') [] = (Some 1, h2)
      \<and> name (h2 ! 1) = ''Bob'' \<and> email (h2 ! 1) = ''rob@example.com'')
   \<and> (\<exists>h2. update_user 7 (Some ''Al'') None [] = (None, h2))"
  using update_user_fields [where uid = 2 and name' = None
          and email' = "Some ''rob@example.com''" and h = "[]"]
        update_user_fields [where uid = 7 and name' = "Some ''Al''"
          and email' = None and h = "[]"]
  by (auto simp add: get_user_by_id_cases)

section \<open>Properties of the order service\<close>

lemma get_all_orders_eq:
  "get_all_orders h =
     ([length h, Suc (length h)],
      h @ [Order_init 1 1 ''Laptop'' (Finite False 4398002530638889 (- 42)),
           Order_init 2 2 ''Phone'' (Finite False 3078588577307689 (- 42))])"
  by (simp add: get_all_orders_def alloc_def)

lemma get_order_by_id_cases:
  "get_order_by_id oid h =
     ((if oid = 1 then Some (length h) else if oid = 2 then Some (Suc (length h)) else None),
      h @ [Order_init 1 1 ''Laptop'' (Finite False 4398002530638889 (- 42)),
           Order_init 2 2 ''Phone'' (Finite False 3078588577307689 (- 42))])"
  by (simp add: get_order_by_id_def get_all_orders_eq nth_append Order_init_def)

lemma create_order_ok:
  "\<not> float_le_zero a \<Longrightarrow>
   create_order u p a h =
     (Inr (length h + 2),
      h @ [Order_init 1 1 ''Laptop'' (Finite False 4398002530638889 (- 42)),
           Order_init 2 2 ''Phone'' (Finite False 3078588577307689 (- 42)),
           Order_init 3 u p a])"
  by (simp add: create_order_def get_all_orders_eq alloc_def)

lemma create_order_err:
  "float_le_zero a \<Longrightarrow>
   create_order u p a h = (Inl (ValueError ''Amount must be positive''), h)"
  by (simp add: create_order_def)

lemma float_gt_not_le: "float_gt_zero a \<Longrightarrow> \<not> float_le_zero a"
  by (cases a) auto

text \<open>
  Claim C1. From every heap, \<^verbatim>\<open>cancel_order(1)\<close> returns \<^verbatim>\<open>True\<close> and has set the
  status of the order it looked up to cancelled; a call of \<^verbatim>\<open>get_order_by_id(1)\<close>
  after it returns another, fresh order with id 1 whose status is pending, while the
  cancelled object is still cancelled. Whatever the calls before it, that is from any
  heap at all, \<^verbatim>\<open>get_order_by_id(1)\<close> returns a fresh object with status pending: each
  call builds the dataset anew.
\<close>

theorem cancel_order_not_persisted:
  "(\<exists>order h1 order' h2.
      fst (get_order_by_id 1 h) = Some order
      \<and> cancel_order 1 h = (True, h1)
      \<and> status (h1 ! order) = ''cancelled''
      \<and> get_order_by_id 1 h1 = (Some order', h2)
      \<and> order' \<noteq> order
      \<and> Order.id (h2 ! order') = 1
      \<and> status (h2 ! order') = ''pending''
      \<and> status (h2 ! order) = ''cancelled'')
   \<and> (\<exists>order' h2. get_order_by_id 1 h' = (Some order', h2)
         \<and> length h' \<le> order' \<and> status (h2 ! order') = ''pending'')"
  by (simp add: cancel_order_def get_order_by_id_cases nth_append Order_init_def)

theorem cancel_order_not_persisted_witness:
  "\<exists>h1 h2. cancel_order 1 [] = (True, h1) \<and> status (h1 ! 0) = ''cancelled''
     \<and> get_order_by_id 1 h1 = (Some 2, h2) \<and> status (h2 ! 2) = ''pending''"
  using cancel_order_not_persisted [where h = "[]" and h' = "[]"]
  by (simp add: cancel_order_def get_order_by_id_cases nth_append Order_init_def)

text \<open>
  Claim C4. For every user id, product and amount, \<^verbatim>\<open>create_order\<close> raises
  \<^verbatim>\<open>ValueError\<close> exactly when \<^verbatim>\<open>amount <= 0\<close>, and returns an order exactly when not.
  When \<^verbatim>\<open>amount > 0\<close> the order has the id \<^verbatim>\<open>len(get_all_orders()) + 1\<close>, which is 3,
  the user id and the product as given (the user id is not looked up and the product
  may be empty), the amount as given and the status pending.
  \<^verbatim>\<open>create_order(1, "Tablet", -5)\<close> raises; \<^verbatim>\<open>create_order(1, "Tablet", 5)\<close> returns
  an order with status pending.
\<close>

theorem create_order_raises_iff:
  "((\<exists>msg h1. create_order u p a h = (Inl (ValueError msg), h1)) \<longleftrightarrow> float_le_zero a)
   \<and> ((\<exists>order h1. create_order u p a h = (Inr order, h1)) \<longleftrightarrow> \<not> float_le_zero a)
   \<and> (float_gt_zero a \<longrightarrow>
        (\<exists>order h1. create_order u p a h = (Inr order, h1)
           \<and> Order.id (h1 ! order) = int (length (fst (get_all_orders h))) + 1
           \<and> h1 ! order =
               \<lparr>Order.id = 3, user_id = u, product = p, amount = a, status = ''pending''\<rparr>))
   \<and> (\<exists>msg. create_order 1 ''Tablet'' (Finite True 5 0) h = (Inl (ValueError msg), h))
   \<and> (\<exists>order h1. create_order 1 ''Tablet'' (Finite False 5 0) h = (Inr order, h1)
         \<and> status (h1 ! order) = ''pending'')"
proof (cases "float_le_zero a")
  case True
  then have "\<not> float_gt_zero a"
    using float_gt_not_le by blast
  with True show ?thesis
    by (simp add: create_order_err create_order_ok nth_append Order_init_def)
next
  case False
  then show ?thesis
    by (simp add: create_order_err create_order_ok get_all_orders_eq nth_append Order_init_def)
qed

text \<open>
  The witness: a zero amount raises; a positive amount, here one half, with a user id
  that no user has and an empty product, gives the order with id 3.
\<close>

theorem create_order_raises_iff_witness:
  "(\<exists>msg h1. create_order 9 [] (Finite False 0 0) [] = (Inl (ValueError msg), h1))
   \<and> (\<exists>order h1. create_order 9 [] (Finite False 1 (- 1)) [] = (Inr order, h1)
        \<and> h1 ! order = \<lparr>Order.id = 3, user_id = 9, product = [],
              amount = Finite False 1 (- 1), status = ''pending''\<rparr>)"
  using create_order_raises_iff [where u = 9 and p = "[]" and a = "Finite False 0 0"
          and h = "[]"]
        create_order_raises_iff [where u = 9 and p = "[]" and a = "Finite False 1 (- 1)"
          and h = "[]"]
  by auto

section \<open>Properties of the utilities\<close>

text \<open>
  Claim C9. For every value, \<^verbatim>\<open>is_valid_id\<close> returns a boolean (it never raises, also
  on values that \<^verbatim>\<open>> 0\<close> alone would raise on), and that boolean is true exactly when
  the value is an integer greater than zero. An integer is what \<^verbatim>\<open>isinstance(v, int)\<close>
  accepts: an \<^verbatim>\<open>int\<close>, and also a boolean, so that \<^verbatim>\<open>True\<close>, the integer 1, is a
  valid id. \<^verbatim>\<open>is_valid_id(-1)\<close> is false, \<^verbatim>\<open>is_valid_id(5)\<close> is true, and
  \<^verbatim>\<open>is_valid_id(5.0)\<close>, on a float, is false.
\<close>

theorem is_valid_id_iff:
  "is_valid_id v = Inr (case as_integer v of Some n \<Rightarrow> 0 < n | None \<Rightarrow> False)
   \<and> is_valid_id (PyInt (- 1)) = Inr False
   \<and> is_valid_id (PyInt 5) = Inr True
   \<and> is_valid_id (PyFloat (Finite False 5 0)) = Inr False
   \<and> is_valid_id (PyBool True) = Inr True"
  by (cases v) (simp_all add: is_valid_id_def)

theorem is_valid_id_iff_witness:
  "is_valid_id (PyInt 42) = Inr True \<and> is_valid_id (PyStr ''42'') = Inr False
   \<and> is_valid_id (PyInt 0) = Inr False \<and> is_valid_id PyNone = Inr False"
  using is_valid_id_iff [where v = "PyInt 42"] is_valid_id_iff [where v = "PyStr ''42''"]
    is_valid_id_iff [where v = "PyInt 0"] is_valid_id_iff [where v = PyNone]
  by simp

subsection \<open>The email validator\<close>

text \<open>
  What each item of a pattern does to a state, as a relation: a greedy repetition can
  stop after any run of at least \<open>n\<close> matching characters.
\<close>

lemma le_length_takeWhile:
  "j \<le> length (takeWhile P xs) \<longleftrightarrow> j \<le> length xs \<and> list_all P (take j xs)"
proof (induction xs arbitrary: j)
  case Nil
  then show ?case by simp
next
  case (Cons x xs)
  then show ?case by (cases j) auto
qed

lemma in_match_AtLeast:
  "(p', r') \<in> set (match_item (AtLeast n a) (p, r)) \<longleftrightarrow>
     (\<exists>xs. r = xs @ r' \<and> n \<le> length xs \<and> list_all (atom_ok a) xs \<and> p' = p + length xs)"
proof
  assume "(p', r') \<in> set (match_item (AtLeast n a) (p, r))"
  then obtain j where j: "n \<le> j" "j \<le> length (takeWhile (atom_ok a) r)"
      "p' = p + j" "r' = drop j r"
    by (auto simp: Let_def)
  from j(2) have "j \<le> length r" "list_all (atom_ok a) (take j r)"
    by (simp_all add: le_length_takeWhile)
  with j show "\<exists>xs. r = xs @ r' \<and> n \<le> length xs \<and> list_all (atom_ok a) xs
      \<and> p' = p + length xs"
    by (intro exI [of _ "take j r"]) simp
next
  assume "\<exists>xs. r = xs @ r' \<and> n \<le> length xs \<and> list_all (atom_ok a) xs
      \<and> p' = p + length xs"
  then obtain xs where xs: "r = xs @ r'" "n \<le> length xs" "list_all (atom_ok a) xs"
      "p' = p + length xs"
    by blast
  then have "length xs \<le> length (takeWhile (atom_ok a) r)"
    by (simp add: le_length_takeWhile)
  with xs show "(p', r') \<in> set (match_item (AtLeast n a) (p, r))"
    by (auto simp: Let_def image_iff intro!: bexI [of _ "length xs"])
qed

lemma in_match_One:
  "(p', r') \<in> set (match_item (One a) (p, r)) \<longleftrightarrow>
     (\<exists>c. r = c # r' \<and> atom_ok a c \<and> p' = p + 1)"
  by (cases r) auto

lemma in_match_Bol:
  "(p', r') \<in> set (match_item Bol (p, r)) \<longleftrightarrow> p = 0 \<and> p' = p \<and> r' = r"
  by auto

lemma in_match_seq_Cons:
  "st' \<in> set (match_seq (i # items) st) \<longleftrightarrow>
     (\<exists>p1 r1. (p1, r1) \<in> set (match_item i st) \<and> st' \<in> set (match_seq items (p1, r1)))"
  by auto

lemma in_seq_Eol:
  "st \<in> set (match_seq [Eol] (p, r)) \<longleftrightarrow> (r = [] \<or> r = [CHR 0x0A]) \<and> st = (p, r)"
  by auto

lemma in_seq_AtLeast:
  "st \<in> set (match_seq (AtLeast n a # items) (p, r)) \<longleftrightarrow>
     (\<exists>xs r'. r = xs @ r' \<and> n \<le> length xs \<and> list_all (atom_ok a) xs
        \<and> st \<in> set (match_seq items (p + length xs, r')))"
  unfolding in_match_seq_Cons in_match_AtLeast by blast

lemma in_seq_One:
  "st \<in> set (match_seq (One a # items) (p, r)) \<longleftrightarrow>
     (\<exists>c r'. r = c # r' \<and> atom_ok a c \<and> st \<in> set (match_seq items (p + 1, r')))"
  unfolding in_match_seq_Cons in_match_One by blast

lemma in_seq_Bol:
  "st \<in> set (match_seq (Bol # items) (p, r)) \<longleftrightarrow>
     p = 0 \<and> st \<in> set (match_seq items (p, r))"
  unfolding in_match_seq_Cons in_match_Bol by blast

text \<open>
  A pattern built like the one of \<^verbatim>\<open>validateEmail\<close> has a match from position 0
  exactly when the subject splits into three runs around the two literals, followed
  by nothing or by one newline.
\<close>

lemma in_seq_shape:
  "(\<exists>st. st \<in> set (match_seq
       [Bol, AtLeast n1 a1, One (Lit c1), AtLeast n2 a2, One (Lit c2), AtLeast n3 a3, Eol]
       (0, s))) \<longleftrightarrow>
     (\<exists>l d t r. s = l @ c1 # d @ c2 # t @ r
        \<and> n1 \<le> length l \<and> list_all (atom_ok a1) l
        \<and> n2 \<le> length d \<and> list_all (atom_ok a2) d
        \<and> n3 \<le> length t \<and> list_all (atom_ok a3) t
        \<and> (r = [] \<or> r = [CHR 0x0A]))"
  unfolding in_seq_Bol in_seq_AtLeast in_seq_One in_seq_Eol atom_ok.simps
  by (simp add: ex_simps) blast

lemma validateEmail_nonempty:
  "validateEmail s \<longleftrightarrow> (\<exists>st. st \<in> set (match_seq pattern (0, s)))"
  by (cases "match_seq pattern (0, s)") (auto simp: validateEmail_def re_match_def)

lemma atom_ok_Cls: "atom_ok (Cls rs) = in_class rs"
  by (rule ext) simp

lemma validateEmail_split:
  "validateEmail s \<longleftrightarrow>
     (\<exists>l d t r. s = l @ CHR ''@'' # d @ CHR ''.'' # t @ r
        \<and> 1 \<le> length l \<and> list_all local_char l
        \<and> 1 \<le> length d \<and> list_all domain_char d
        \<and> 2 \<le> length t \<and> list_all letter t
        \<and> (r = [] \<or> r = [CHR 0x0A]))"
  unfolding validateEmail_nonempty pattern_def in_seq_shape atom_ok_Cls
    local_char_def domain_char_def letter_def
  by (rule refl)

lemma email_shape_split:
  "email_shape s \<longleftrightarrow>
     (\<exists>l d t. s = l @ CHR ''@'' # d @ CHR ''.'' # t
        \<and> 1 \<le> length l \<and> list_all local_char l
        \<and> 1 \<le> length d \<and> list_all domain_char d
        \<and> 2 \<le> length t \<and> list_all letter t)"
  unfolding email_shape_def by (simp add: Suc_le_eq)

text \<open>
  What \<^verbatim>\<open>validateEmail\<close> accepts: the strings of the shape, and the strings of the
  shape followed by one newline.
\<close>

lemma validateEmail_iff:
  "validateEmail s \<longleftrightarrow> email_shape s \<or> (\<exists>s0. s = s0 @ [CHR 0x0A] \<and> email_shape s0)"
proof
  assume "validateEmail s"
  then obtain l d t r where *: "s = l @ CHR ''@'' # d @ CHR ''.'' # t @ r"
      "1 \<le> length l" "list_all local_char l" "1 \<le> length d" "list_all domain_char d"
      "2 \<le> length t" "list_all letter t" "r = [] \<or> r = [CHR 0x0A]"
    unfolding validateEmail_split by blast
  then have shape: "email_shape (l @ CHR ''@'' # d @ CHR ''.'' # t)"
    unfolding email_shape_split by blast
  from *(8) show "email_shape s \<or> (\<exists>s0. s = s0 @ [CHR 0x0A] \<and> email_shape s0)"
  proof
    assume "r = []"
    with *(1) shape show ?thesis by simp
  next
    assume "r = [CHR 0x0A]"
    with *(1) have "s = (l @ CHR ''@'' # d @ CHR ''.'' # t) @ [CHR 0x0A]" by simp
    with shape show ?thesis by blast
  qed
next
  have shape_split: "validateEmail (s0 @ r)"
    if "email_shape s0" "r = [] \<or> r = [CHR 0x0A]" for s0 r
  proof -
    from that(1) obtain l d t where *: "s0 = l @ CHR ''@'' # d @ CHR ''.'' # t"
      "1 \<le> length l" "list_all local_char l" "1 \<le> length d" "list_all domain_char d"
      "2 \<le> length t" "list_all letter t"
      unfolding email_shape_split by blast
    from *(1) have "s0 @ r = l @ CHR ''@'' # d @ CHR ''.'' # t @ r" by simp
    with * that(2) show ?thesis
      unfolding validateEmail_split by blast
  qed
  assume "email_shape s \<or> (\<exists>s0. s = s0 @ [CHR 0x0A] \<and> email_shape s0)"
  then show "validateEmail s"
  proof
    assume "email_shape s"
    then show ?thesis using shape_split [of s "[]"] by simp
  next
    assume "\<exists>s0. s = s0 @ [CHR 0x0A] \<and> email_shape s0"
    then show ?thesis using shape_split by blast
  qed
qed

lemma email_shape_last_letter:
  assumes "email_shape s"
  shows "s \<noteq> [] \<and> letter (last s)"
proof -
  from assms obtain l d t where *: "s = l @ ''@'' @ d @ ''.'' @ t" "2 \<le> length t"
      "list_all letter t"
    unfolding email_shape_def by blast
  from *(2) have "t \<noteq> []" by auto
  with *(1) have "last s = last t" "s \<noteq> []" by simp_all
  moreover from \<open>t \<noteq> []\<close> *(3) have "letter (last t)"
    by (simp add: list_all_iff)
  ultimately show ?thesis by simp
qed

lemma email_shape_has_at: "email_shape s \<Longrightarrow> CHR ''@'' \<in> set s"
  unfolding email_shape_def by auto

lemma validateEmail_has_at: "validateEmail s \<Longrightarrow> s \<noteq> [] \<and> CHR ''@'' \<in> set s"
  unfolding validateEmail_iff by (auto dest: email_shape_has_at)

lemma validateEmail_examples:
  "validateEmail ''a@b.co''" "\<not> validateEmail ''no-at-sign''"
  by code_simp+

text \<open>
  Claim C7. The claim is that \<^verbatim>\<open>validateEmail\<close> is true exactly on the strings of the
  shape \<^verbatim>\<open>local@domain.tld\<close>. The code differs on one family of inputs: \<^verbatim>\<open>$\<close> also
  matches before a newline that ends the string, so an address of the shape followed
  by a newline is accepted, although it does not have the shape (its last character is
  no letter). Here the code is run on \<^verbatim>\<open>"a@b.co\n"\<close>.
\<close>

theorem validateEmail_trailing_newline:
  "validateEmail (''a@b.co'' @ [CHR 0x0A]) \<and> \<not> email_shape (''a@b.co'' @ [CHR 0x0A])"
proof
  show "validateEmail (''a@b.co'' @ [CHR 0x0A])"
    by code_simp
  have "\<not> letter (CHR 0x0A)"
    by (simp add: letter_def)
  then show "\<not> email_shape (''a@b.co'' @ [CHR 0x0A])"
    using email_shape_last_letter [of "''a@b.co'' @ [CHR 0x0A]"] by auto
qed

text \<open>
  Claim C10. The email check of \<^verbatim>\<open>create_user\<close> is strictly weaker than
  \<^verbatim>\<open>validateEmail\<close>: every email that \<^verbatim>\<open>validateEmail\<close> accepts, \<^verbatim>\<open>create_user\<close>
  accepts too; and \<^verbatim>\<open>"a@b"\<close>, which contains \<^verbatim>\<open>@\<close> and which \<^verbatim>\<open>validateEmail\<close>
  rejects, makes \<^verbatim>\<open>create_user\<close> return, for every name, a user that carries this
  email unchanged.
\<close>

theorem create_user_weaker_than_validateEmail:
  "(validateEmail e \<longrightarrow> (\<exists>user h1. create_user name' e h = (Inr user, h1)))
   \<and> CHR ''@'' \<in> set ''a@b'' \<and> \<not> validateEmail ''a@b''
   \<and> (\<exists>user h1. create_user name' ''a@b'' h = (Inr user, h1)
         \<and> email (h1 ! user) = ''a@b'')"
proof (intro conjI)
  show "validateEmail e \<longrightarrow> (\<exists>user h1. create_user name' e h = (Inr user, h1))"
    using validateEmail_has_at [of e] by (auto simp: create_user_ok)
  show "CHR ''@'' \<in> set ''a@b''"
    by simp
  show "\<not> validateEmail ''a@b''"
    by code_simp
  show "\<exists>user h1. create_user name' ''a@b'' h = (Inr user, h1) \<and> email (h1 ! user) = ''a@b''"
    by (simp add: create_user_ok nth_append)
qed

theorem create_user_weaker_than_validateEmail_witness:
  "validateEmail ''a@b.co''
   \<and> (\<exists>user h1. create_user ''Ann'' ''a@b.co'' [] = (Inr user, h1))
   \<and> (\<exists>user h1. create_user ''Ann'' ''a@b'' [] = (Inr user, h1)
         \<and> email (h1 ! user) = ''a@b'')"
proof -
  have v: "validateEmail ''a@b.co''"
    by code_simp
  with create_user_weaker_than_validateEmail
    [where e = "''a@b.co''" and name' = "''Ann''" and h = "[]"]
  show ?thesis by blast
qed

subsection \<open>The currency formatter\<close>

lemma digit_char_props:
  assumes "d < 10"
  shows "is_digit (digit_char d)" and "digit_value (digit_char d) = d"
proof -
  from assms have "d = 0 \<or> d = 1 \<or> d = 2 \<or> d = 3 \<or> d = 4 \<or> d = 5
      \<or> d = 6 \<or> d = 7 \<or> d = 8 \<or> d = 9"
    by arith
  then show "is_digit (digit_char d)"
    by (elim disjE) (simp_all add: is_digit_def digit_char_def char_of_eq_iff)
  from assms show "digit_value (digit_char d) = d"
    by (simp add: digit_value_def digit_char_def)
qed

lemma str_nat_digits: "str_nat n \<noteq> [] \<and> list_all is_digit (str_nat n)"
proof (induction n rule: str_nat.induct)
  case (1 n)
  show ?case
  proof (cases "n < 10")
    case True
    then show ?thesis by (simp add: str_nat.simps [of n] digit_char_props)
  next
    case False
    with 1 show ?thesis by (simp add: str_nat.simps [of n] digit_char_props)
  qed
qed

lemma read_nat_snoc: "read_nat (ds @ [c]) = 10 * read_nat ds + digit_value c"
  by (simp add: read_nat_def)

lemma read_nat_str_nat: "read_nat (str_nat n) = n"
proof (induction n rule: str_nat.induct)
  case (1 n)
  show ?case
  proof (cases "n < 10")
    case True
    then show ?thesis by (simp add: str_nat.simps [of n] digit_char_props read_nat_def)
  next
    case False
    with 1 show ?thesis
      by (simp add: str_nat.simps [of n] read_nat_snoc digit_char_props)
  qed
qed

lemma round_half_even_near:
  assumes "0 < den"
  shows "2 * \<bar>int (round_half_even num den) * int den - int num\<bar> \<le> int den"
proof -
  define q r where "q = num div den" and "r = num mod den"
  have num: "int num = int q * int den + int r"
    unfolding q_def r_def by (metis div_mult_mod_eq of_nat_add of_nat_mult)
  have r: "r < den" unfolding r_def using assms by simp
  have n: "round_half_even num den =
      (if 2 * r < den then q else if den < 2 * r then q + 1 else if even q then q else q + 1)"
    unfolding round_half_even_def q_def r_def by (simp add: Let_def)
  show ?thesis
  proof (cases "2 * r < den")
    case True
    with n num show ?thesis by simp
  next
    case False
    then have "round_half_even num den = q \<and> 2 * r = den \<or> round_half_even num den = q + 1"
      using n by (auto split: if_splits)
    then show ?thesis
    proof
      assume "round_half_even num den = q \<and> 2 * r = den"
      with num show ?thesis by simp
    next
      assume "round_half_even num den = q + 1"
      with num r False show ?thesis by (simp add: algebra_simps)
    qed
  qed
qed

lemma not_digit_punct: "\<not> is_digit (CHR ''-'')" "\<not> is_digit (CHR ''.'')"
  by (simp_all add: is_digit_def)

lemma format_2f_finite:
  assumes nd: "float_ratio m e = (num, den)"
  shows "\<exists>ip fp. format_2f (Finite s m e) = (if s then ''-'' else []) @ ip @ ''.'' @ fp
      \<and> ip \<noteq> [] \<and> list_all is_digit ip \<and> length fp = 2 \<and> list_all is_digit fp
      \<and> read_nat (ip @ fp) = round_half_even (100 * num) den"
proof -
  define n where "n = round_half_even (100 * num) den"
  define fp where "fp = [digit_char (n div 10 mod 10), digit_char (n mod 10)]"
  have fmt: "format_2f (Finite s m e) = (if s then ''-'' else []) @ str_nat (n div 100) @ ''.'' @ fp"
    unfolding fp_def n_def by (simp add: nd Let_def)
  have fp: "length fp = 2" "list_all is_digit fp"
    unfolding fp_def by (simp_all add: digit_char_props)
  have "read_nat (str_nat (n div 100) @ fp) = 10 * (10 * (n div 100) + n div 10 mod 10) + n mod 10"
    unfolding fp_def
    using read_nat_snoc [of "str_nat (n div 100) @ [digit_char (n div 10 mod 10)]" "digit_char (n mod 10)"]
      read_nat_snoc [of "str_nat (n div 100)" "digit_char (n div 10 mod 10)"]
    by (simp add: digit_char_props read_nat_str_nat)
  also have "\<dots> = n"
  proof -
    have "n div 100 = n div 10 div 10"
      by (simp add: div_mult2_eq)
    then have "10 * (n div 100) + n div 10 mod 10 = n div 10"
      by simp
    then show ?thesis
      by simp
  qed
  finally have val: "read_nat (str_nat (n div 100) @ fp) = n" .
  have "format_2f (Finite s m e) = (if s then ''-'' else []) @ str_nat (n div 100) @ ''.'' @ fp
      \<and> str_nat (n div 100) \<noteq> [] \<and> list_all is_digit (str_nat (n div 100))
      \<and> length fp = 2 \<and> list_all is_digit fp
      \<and> read_nat (str_nat (n div 100) @ fp) = round_half_even (100 * num) den"
    using fmt fp val str_nat_digits [of "n div 100"] unfolding n_def by blast
  then show ?thesis by blast
qed

lemma float_ratio_pos: "float_ratio m e = (num, den) \<Longrightarrow> 0 < den"
  by (auto simp: float_ratio_def split: if_splits)

lemma float_ratio_value:
  "float_ratio m e = (num, den) \<Longrightarrow> real m * 2 powi e = real num / real den"
  by (auto simp: float_ratio_def power_int_def split: if_splits simp: field_simps)

lemma round_half_even_real:
  assumes "0 < den"
  shows "\<bar>real (round_half_even (100 * num) den) / 100 - real num / real den\<bar> \<le> 1 / 200"
proof -
  have "2 * \<bar>int (round_half_even (100 * num) den) * int den - int (100 * num)\<bar> \<le> int den"
    using assms by (rule round_half_even_near)
  then have "real_of_int (2 * \<bar>int (round_half_even (100 * num) den) * int den - int (100 * num)\<bar>)
      \<le> real_of_int (int den)"
    by (rule of_int_le_iff [THEN iffD2])
  then have *: "2 * \<bar>real (round_half_even (100 * num) den) * real den - 100 * real num\<bar> \<le> real den"
    by simp
  have "\<bar>real (round_half_even (100 * num) den) / 100 - real num / real den\<bar>
      = \<bar>real (round_half_even (100 * num) den) * real den - 100 * real num\<bar> / (100 * real den)"
    using assms by (simp add: field_simps abs_divide flip: abs_mult)
  also have "\<dots> \<le> (real den / 2) / (100 * real den)"
    using * assms by (intro divide_right_mono) simp_all
  also have "\<dots> = 1 / 200"
    using assms by simp
  finally show ?thesis .
qed

lemma symbol_lookup: "dict_get symbols currency ''$'' = currency_symbol currency"
  by (simp add: dict_get_def symbols_def currency_symbol_def)

lemma FormatCurrency_eq:
  "FormatCurrency amount' currency = currency_symbol currency @ format_2f amount'"
  by (simp add: FormatCurrency_def symbol_lookup)

lemma format_2f_finite_text:
  "two_decimal_places (format_2f (Finite s m e))
   \<and> (hd (format_2f (Finite s m e)) = CHR ''-'' \<longleftrightarrow> s)
   \<and> \<bar>real (read_nat (filter is_digit (format_2f (Finite s m e)))) / 100 - real m * 2 powi e\<bar>
       \<le> 1 / 200"
proof -
  obtain num den where nd: "float_ratio m e = (num, den)"
    by (cases "float_ratio m e")
  from format_2f_finite [OF nd, of s] obtain ip fp where
    t: "format_2f (Finite s m e) = (if s then ''-'' else []) @ ip @ ''.'' @ fp"
    and ip: "ip \<noteq> []" "list_all is_digit ip"
    and fp: "length fp = 2" "list_all is_digit fp"
    and val: "read_nat (ip @ fp) = round_half_even (100 * num) den"
    by blast
  have shape: "two_decimal_places (format_2f (Finite s m e))"
    unfolding two_decimal_places_def
    by (rule exI [of _ "if s then ''-'' else []"], rule exI [of _ ip], rule exI [of _ fp])
      (simp add: t ip fp del: format_2f.simps)
  from ip have "is_digit (hd ip)"
    by (cases ip) simp_all
  then have "hd ip \<noteq> CHR ''-''"
    using not_digit_punct(1) by auto
  with ip have sign: "hd (format_2f (Finite s m e)) = CHR ''-'' \<longleftrightarrow> s"
    by (simp add: t del: format_2f.simps)
  have "filter is_digit (format_2f (Finite s m e)) = ip @ fp"
    using ip(2) fp(2) not_digit_punct
    by (simp add: t list_all_iff filter_id_conv del: format_2f.simps)
  then have "\<bar>real (read_nat (filter is_digit (format_2f (Finite s m e)))) / 100
      - real m * 2 powi e\<bar> \<le> 1 / 200"
    using round_half_even_real [OF float_ratio_pos [OF nd], of num]
    by (simp only: val float_ratio_value [OF nd])
  with shape sign show ?thesis by blast
qed

text \<open>
  Claim C8, as amended. For every finite amount and every currency code,
  \<^verbatim>\<open>FormatCurrency\<close> returns the symbol of the code (\<^verbatim>\<open>$\<close> for USD, the euro sign for
  EUR, the pound sign for GBP, \<^verbatim>\<open>$\<close> for any other code) followed by the amount with
  exactly two decimal places: the text has a minus sign exactly when the float has its
  sign bit set, and the number of hundredths it shows is within half a hundredth of
  the amount. For an amount that is not finite the text after the symbol is
  \<^verbatim>\<open>nan\<close>, \<^verbatim>\<open>inf\<close> or \<^verbatim>\<open>-inf\<close>. \<^verbatim>\<open>FormatCurrency(1234.5, "EUR")\<close> is the euro sign and
  \<^verbatim>\<open>1234.50\<close>; \<^verbatim>\<open>FormatCurrency(1, "JPY")\<close> is \<^verbatim>\<open>$1.00\<close> (the format converts the
  integer 1 to the float 1.0).
\<close>

theorem FormatCurrency_finite:
  "(\<exists>t. FormatCurrency (Finite s m e) currency = currency_symbol currency @ t
       \<and> two_decimal_places t
       \<and> (hd t = CHR ''-'' \<longleftrightarrow> s)
       \<and> \<bar>real (read_nat (filter is_digit t)) / 100 - real m * 2 powi e\<bar> \<le> 1 / 200)
   \<and> FormatCurrency NaN currency = currency_symbol currency @ ''nan''
   \<and> FormatCurrency (Infinity s) currency
       = currency_symbol currency @ (if s then ''-inf'' else ''inf'')
   \<and> FormatCurrency (Finite False 2469 (- 1)) ''EUR''
       = [CHR 0xE2, CHR 0x82, CHR 0xAC] @ ''1234.50''
   \<and> FormatCurrency (Finite False 1 0) ''JPY'' = ''$1.00''"
proof (intro conjI)
  show "\<exists>t. FormatCurrency (Finite s m e) currency = currency_symbol currency @ t
       \<and> two_decimal_places t
       \<and> (hd t = CHR ''-'' \<longleftrightarrow> s)
       \<and> \<bar>real (read_nat (filter is_digit t)) / 100 - real m * 2 powi e\<bar> \<le> 1 / 200"
    using format_2f_finite_text [of s m e] FormatCurrency_eq [of "Finite s m e" currency]
    by blast
  show "FormatCurrency NaN currency = currency_symbol currency @ ''nan''"
    by (simp add: FormatCurrency_eq)
  show "FormatCurrency (Infinity s) currency
       = currency_symbol currency @ (if s then ''-inf'' else ''inf'')"
    by (simp add: FormatCurrency_eq)
  show "FormatCurrency (Finite False 2469 (- 1)) ''EUR''
       = [CHR 0xE2, CHR 0x82, CHR 0xAC] @ ''1234.50''"
    by (simp add: FormatCurrency_eq currency_symbol_def float_ratio_def round_half_even_def
        str_nat.simps digit_char_def char_of_eq_iff)
  show "FormatCurrency (Finite False 1 0) ''JPY'' = ''$1.00''"
    by (simp add: FormatCurrency_eq currency_symbol_def float_ratio_def round_half_even_def
        str_nat.simps digit_char_def char_of_eq_iff)
qed

theorem FormatCurrency_finite_witness:
  "\<exists>t. FormatCurrency (Finite True 1 (- 10)) ''GBP'' = [CHR 0xC2, CHR 0xA3] @ t
      \<and> two_decimal_places t \<and> hd t = CHR ''-''"
proof -
  have "currency_symbol ''GBP'' = [CHR 0xC2, CHR 0xA3]"
    by (simp add: currency_symbol_def)
  with FormatCurrency_finite [where s = True and m = 1 and e = "- 10" and currency = "''GBP''"]
  show ?thesis by auto
qed

text \<open>
  The claim as stated, for every amount, fails on not-a-number: the result is
  \<^verbatim>\<open>$nan\<close>, and \<^verbatim>\<open>nan\<close> has no decimal places.
\<close>

theorem FormatCurrency_nan_counterexample:
  "FormatCurrency NaN ''USD'' = ''$nan'' \<and> currency_symbol ''USD'' = ''$''
   \<and> \<not> two_decimal_places ''nan''"
proof (intro conjI)
  show "FormatCurrency NaN ''USD'' = ''$nan''"
    by (simp add: FormatCurrency_eq currency_symbol_def)
  show "currency_symbol ''USD'' = ''$''"
    by (simp add: currency_symbol_def)
  show "\<not> two_decimal_places ''nan''"
  proof
    assume "two_decimal_places ''nan''"
    then obtain sign ip fp where "''nan'' = sign @ ip @ ''.'' @ fp"
      unfolding two_decimal_places_def by blast
    then have "CHR ''.'' \<in> set ''nan''"
      by (metis append_Cons in_set_conv_decomp append_assoc)
    then show False by simp
  qed
qed

end
